theory Spec2Isabelle
  imports
    Complex_Main
    "HOL-Library.AList"
    "HOL-Library.Char_ord"
    "HOL-Library.List_Lexorder"
    "HOL-Library.Log_Nat"
    "HOL-Library.Multiset"
    "HOL-Library.Product_Lexorder"
    "HOL-Library.Sublist"
begin

section \<open>Data model\<close>

text \<open>
  One row of \<^verbatim>\<open>Hotelbookings.csv\<close>, restricted to the columns that the filter and the
  aggregations of \<^verbatim>\<open>app.py\<close> read. The field names are the column names of the source.
  \<open>adr\<close> is a float64 column without missing values: each value is the rational number
  that the float denotes. The integer columns are int64. \<open>is_canceled\<close> and
  \<open>is_repeated_guest\<close> are 0/1 columns. Means, minima and maxima are computed on the exact
  values; the revenue arithmetic of lines 66 and 196 is computed in float64 and int64, as
  defined below.
\<close>

record booking =
  hotel :: string
  arrival_date_year :: int
  arrival_date_month :: string
  customer_type :: string
  adr :: rat
  is_canceled :: int
  stays_in_week_nights :: int
  stays_in_weekend_nights :: int
  market_segment :: string
  assigned_room_type :: string
  reserved_room_type :: string
  is_repeated_guest :: int

text \<open>
  A float64 value: a number, an infinity or NaN (the two zeros are not told apart). pandas
  returns NaN for the mean, minimum and maximum of an empty series, and for a label that
  \<^verbatim>\<open>reindex\<close> does not find.
\<close>

datatype pyfloat = Fin rat | PInf | NInf | NaN

text \<open>
  The exceptions of the script: \<open>ValueError\<close> and \<open>OverflowError\<close> from \<^verbatim>\<open>int\<close>,
  \<open>StreamlitAPIException\<close> from the slider, and \<open>ChartError\<close> for the exception with
  which a chart call stops the script.
\<close>

datatype py_error = ValueError | OverflowError | StreamlitAPIException | ChartError

text \<open>
  A DataFrame: its rows in index order, and the columns assigned to it after loading
  (\<^verbatim>\<open>frame["name"] = series\<close>), each with its name, in insertion order.
\<close>

record frame =
  rows :: "booking list"
  added :: "(string \<times> pyfloat list) list"

text \<open>The selections of the sidebar widgets (lines 24 to 37).\<close>

record filter_spec =
  hotel_types :: "string list"
  years :: "int list"
  months :: "string list"
  customer_types :: "string list"
  adr_range :: "int \<times> int"

section \<open>Series operations\<close>

text \<open>\<^verbatim>\<open>frame["name"]\<close>: the column as a series.\<close>

definition col :: "(booking \<Rightarrow> 'a) \<Rightarrow> frame \<Rightarrow> 'a list" where
  "col f t = map f (rows t)"

text \<open>\<^verbatim>\<open>series.isin(values)\<close>: elementwise membership.\<close>

definition isin :: "'a list \<Rightarrow> 'a list \<Rightarrow> bool list" where
  "isin s vals = map (\<lambda>v. v \<in> set vals) s"

text \<open>\<^verbatim>\<open>a & b\<close> on boolean series of one index.\<close>

definition and_s :: "bool list \<Rightarrow> bool list \<Rightarrow> bool list" where
  "and_s a b = map2 (\<and>) a b"

text \<open>
  \<^verbatim>\<open>series.between(left, right)\<close> with the default \<^verbatim>\<open>inclusive="both"\<close>, which pandas
  computes as \<^verbatim>\<open>(series >= left) & (series <= right)\<close>. The bounds are the slider's integers.
\<close>

definition between :: "rat list \<Rightarrow> int \<Rightarrow> int \<Rightarrow> bool list" where
  "between s left right =
     and_s (map (\<lambda>v. of_int left \<le> v) s) (map (\<lambda>v. v \<le> of_int right) s)"

text \<open>Boolean-mask selection: the entries whose mask entry is True, in their order.\<close>

definition select :: "bool list \<Rightarrow> 'a list \<Rightarrow> 'a list" where
  "select msk xs = map fst (filter snd (zip xs msk))"

text \<open>\<^verbatim>\<open>frame[mask]\<close>: a new frame with the selected rows of every column.\<close>

definition getitem_mask :: "frame \<Rightarrow> bool list \<Rightarrow> frame" where
  "getitem_mask t msk =
     \<lparr>rows = select msk (rows t),
      added = map (\<lambda>nc. (fst nc, select msk (snd nc))) (added t)\<rparr>"


section \<open>The filter (lines 40 to 46)\<close>

definition filter_mask :: "frame \<Rightarrow> filter_spec \<Rightarrow> bool list" where
  "filter_mask df spec =
     and_s (and_s (and_s (and_s
       (isin (col hotel df) (hotel_types spec))
       (isin (col arrival_date_year df) (years spec)))
       (isin (col arrival_date_month df) (months spec)))
       (isin (col customer_type df) (customer_types spec)))
       (between (col adr df) (fst (adr_range spec)) (snd (adr_range spec)))"

definition filtered_df :: "frame \<Rightarrow> filter_spec \<Rightarrow> frame" where
  "filtered_df df spec = getitem_mask df (filter_mask df spec)"

section \<open>float64 and int64 arithmetic\<close>

text \<open>An int64 result: the integer reduced to the range from \<open>-2^63\<close> to \<open>2^63 - 1\<close>.\<close>

definition wrap64 :: "int \<Rightarrow> int" where
  "wrap64 n = (n + 2 ^ 63) mod 2 ^ 64 - 2 ^ 63"

text \<open>For \<open>x > 0\<close>, the integer \<open>k\<close> with \<open>2^k \<le> x < 2^(k+1)\<close>.\<close>

definition ilog2 :: "rat \<Rightarrow> int" where
  "ilog2 x =
     (let k = bitlen (fst (quotient_of x)) - bitlen (snd (quotient_of x))
      in if 2 powi k \<le> x then k else k - 1)"

definition round_half_even :: "rat \<Rightarrow> int" where
  "round_half_even y =
     (let f = \<lfloor>y\<rfloor>; d = y - of_int f
      in if d < 1 / 2 then f else if 1 / 2 < d then f + 1 else if even f then f else f + 1)"

text \<open>
  Rounding of an exact result to float64, to nearest with ties to even: 53 significant bits,
  the smallest exponent of the last bit being \<open>-1074\<close>, and an infinity when the rounded
  magnitude reaches \<open>2^1024\<close>.
\<close>

definition round64 :: "rat \<Rightarrow> pyfloat" where
  "round64 x =
     (if x = 0 then Fin 0
      else let e = max (ilog2 \<bar>x\<bar> - 52) (- 1074);
               r = of_int (round_half_even (x / 2 powi e)) * 2 powi e
           in if 2 ^ 1024 \<le> \<bar>r\<bar> then (if 0 < x then PInf else NInf) else Fin r)"

text \<open>The conversion of an int64 to float64, as an int64 series takes part in a float product.\<close>

definition of_int64 :: "int \<Rightarrow> pyfloat" where
  "of_int64 n = round64 (of_int n)"

fun fmul :: "pyfloat \<Rightarrow> pyfloat \<Rightarrow> pyfloat" where
  "fmul (Fin x) (Fin y) = round64 (x * y)"
| "fmul NaN b = NaN"
| "fmul a NaN = NaN"
| "fmul (Fin x) PInf = (if x = 0 then NaN else if 0 < x then PInf else NInf)"
| "fmul (Fin x) NInf = (if x = 0 then NaN else if 0 < x then NInf else PInf)"
| "fmul PInf (Fin y) = (if y = 0 then NaN else if 0 < y then PInf else NInf)"
| "fmul NInf (Fin y) = (if y = 0 then NaN else if 0 < y then NInf else PInf)"
| "fmul PInf PInf = PInf"
| "fmul PInf NInf = NInf"
| "fmul NInf PInf = NInf"
| "fmul NInf NInf = PInf"

fun fadd :: "pyfloat \<Rightarrow> pyfloat \<Rightarrow> pyfloat" where
  "fadd (Fin x) (Fin y) = round64 (x + y)"
| "fadd NaN b = NaN"
| "fadd a NaN = NaN"
| "fadd PInf NInf = NaN"
| "fadd NInf PInf = NaN"
| "fadd PInf b = PInf"
| "fadd a PInf = PInf"
| "fadd NInf b = NInf"
| "fadd a NInf = NInf"

section \<open>Reductions and arithmetic on series\<close>

text \<open>
  \<^verbatim>\<open>series.sum()\<close> of a float64 series. NaN entries count as 0 (\<^verbatim>\<open>skipna\<close>), the sum
  of an empty series is 0, and the entries are added in float64. The script does not fix the
  order in which NumPy adds them (it adds in blocks and pairs), so the order is a parameter:
  a plan names the entries by position and the additions between partial sums. A plan for a
  series of \<open>n\<close> entries uses each position below \<open>n\<close> once.
\<close>

datatype plan = Term nat | Plus plan plan

fun terms :: "plan \<Rightarrow> nat list" where
  "terms (Term i) = [i]"
| "terms (Plus p q) = terms p @ terms q"

fun run_plan :: "plan \<Rightarrow> pyfloat list \<Rightarrow> pyfloat" where
  "run_plan (Term i) s = s ! i"
| "run_plan (Plus p q) s = fadd (run_plan p s) (run_plan q s)"

definition valid_plan :: "plan \<Rightarrow> nat \<Rightarrow> bool" where
  "valid_plan p n = (n = 0 \<or> sort (terms p) = [0..<n])"

definition sum_s :: "plan \<Rightarrow> pyfloat list \<Rightarrow> pyfloat" where
  "sum_s p s =
     (if s = [] then Fin 0 else run_plan p (map (\<lambda>v. if v = NaN then Fin 0 else v) s))"

text \<open>\<^verbatim>\<open>series.mean()\<close>; pandas returns NaN for an empty series and raises nothing.\<close>

definition mean_s :: "rat list \<Rightarrow> pyfloat" where
  "mean_s s = (if s = [] then NaN else Fin (sum_list s / of_nat (length s)))"

text \<open>\<^verbatim>\<open>series.min()\<close> and \<^verbatim>\<open>series.max()\<close>; NaN for an empty series.\<close>

fun min_s :: "rat list \<Rightarrow> pyfloat" where
  "min_s [] = NaN"
| "min_s (x # xs) = Fin (fold min xs x)"

fun max_s :: "rat list \<Rightarrow> pyfloat" where
  "max_s [] = NaN"
| "max_s (x # xs) = Fin (fold max xs x)"

text \<open>
  Elementwise \<^verbatim>\<open>a + b\<close> on int64 series, \<^verbatim>\<open>a * b\<close> on a float64 and an int64 series, and
  \<^verbatim>\<open>a != b\<close>, on series of one index.
\<close>

definition add_s :: "int list \<Rightarrow> int list \<Rightarrow> int list" where
  "add_s a b = map2 (\<lambda>x y. wrap64 (x + y)) a b"

definition mul_s :: "rat list \<Rightarrow> int list \<Rightarrow> pyfloat list" where
  "mul_s a b = map2 (\<lambda>x n. fmul (Fin x) (of_int64 n)) a b"

definition ne_s :: "'a list \<Rightarrow> 'a list \<Rightarrow> bool list" where
  "ne_s a b = map2 (\<noteq>) a b"

text \<open>A boolean series read as numbers (True is 1, False is 0), as its mean does.\<close>

definition as_number :: "bool list \<Rightarrow> rat list" where
  "as_number s = map (\<lambda>b. if b then 1 else 0) s"

text \<open>Float multiplication by a number: NaN stays NaN.\<close>

fun times :: "pyfloat \<Rightarrow> rat \<Rightarrow> pyfloat" where
  "times NaN c = NaN"
| "times (Fin x) c = Fin (x * c)"
| "times PInf c = (if c = 0 then NaN else if 0 < c then PInf else NInf)"
| "times NInf c = (if c = 0 then NaN else if 0 < c then NInf else PInf)"

section \<open>The sidebar defaults (lines 24 to 37)\<close>

text \<open>\<^verbatim>\<open>series.unique()\<close>: the distinct values in order of first appearance.\<close>

fun unique :: "'a list \<Rightarrow> 'a list" where
  "unique [] = []"
| "unique (x # xs) = x # unique (filter (\<lambda>y. y \<noteq> x) xs)"

text \<open>
  Python's \<^verbatim>\<open>int(x)\<close> on a float: truncation towards zero, ValueError on NaN and
  OverflowError on an infinity.
\<close>

definition py_trunc :: "rat \<Rightarrow> int" where
  "py_trunc x = (if 0 \<le> x then \<lfloor>x\<rfloor> else \<lceil>x\<rceil>)"

fun py_int :: "pyfloat \<Rightarrow> py_error + int" where
  "py_int NaN = Inl ValueError"
| "py_int PInf = Inl OverflowError"
| "py_int NInf = Inl OverflowError"
| "py_int (Fin x) = Inr (py_trunc x)"

text \<open>
  \<^verbatim>\<open>st.sidebar.slider(label, min_value, max_value, value)\<close> on its first run: it returns
  \<open>value\<close>, and raises unless \<open>min_value\<close> is less than \<open>max_value\<close>.
\<close>

definition slider :: "int \<Rightarrow> int \<Rightarrow> int \<times> int \<Rightarrow> py_error + int \<times> int" where
  "slider min_value max_value v =
     (if min_value < max_value then Inr v else Inl StreamlitAPIException)"

text \<open>
  The selections when the user touches no widget: every multiselect holds all its options,
  and the slider holds \<^verbatim>\<open>(min_adr, max_adr)\<close>, the truncated extremes of the column.
\<close>

definition default_spec :: "frame \<Rightarrow> py_error + filter_spec" where
  "default_spec df =
     (case py_int (min_s (col adr df)) of
        Inl e \<Rightarrow> Inl e
      | Inr min_adr \<Rightarrow>
          (case py_int (max_s (col adr df)) of
             Inl e \<Rightarrow> Inl e
           | Inr max_adr \<Rightarrow>
               (case slider min_adr max_adr (min_adr, max_adr) of
                  Inl e \<Rightarrow> Inl e
                | Inr adr_range_value \<Rightarrow>
                    Inr \<lparr>hotel_types = unique (col hotel df),
                         years = sort (unique (col arrival_date_year df)),
                         months = unique (col arrival_date_month df),
                         customer_types = unique (col customer_type df),
                         adr_range = adr_range_value\<rparr>)))"

section \<open>The key figures (lines 64 to 67 and 171)\<close>

definition total_bookings :: "frame \<Rightarrow> nat" where
  "total_bookings t = length (rows t)"

definition average_adr :: "frame \<Rightarrow> pyfloat" where
  "average_adr t = mean_s (col adr t)"

text \<open>\<^verbatim>\<open>adr * (stays_in_week_nights + stays_in_weekend_nights)\<close>, as a series.\<close>

definition revenue_series :: "frame \<Rightarrow> pyfloat list" where
  "revenue_series t =
     mul_s (col adr t) (add_s (col stays_in_week_nights t) (col stays_in_weekend_nights t))"

text \<open>Line 66; \<open>p\<close> is the order in which the sum adds the entries.\<close>

definition total_revenue :: "plan \<Rightarrow> frame \<Rightarrow> pyfloat" where
  "total_revenue p t = sum_s p (revenue_series t)"

definition cancellation_rate :: "frame \<Rightarrow> pyfloat" where
  "cancellation_rate t = mean_s (map rat_of_int (col is_canceled t))"

text \<open>The number that line 67 formats: the mean times 100.\<close>

definition cancellation_rate_percent :: "frame \<Rightarrow> pyfloat" where
  "cancellation_rate_percent t = times (cancellation_rate t) 100"

definition rate_of_mismatch :: "frame \<Rightarrow> pyfloat" where
  "rate_of_mismatch t =
     mean_s (as_number (ne_s (col assigned_room_type t) (col reserved_room_type t)))"

definition upgrade_rate :: "frame \<Rightarrow> pyfloat" where
  "upgrade_rate t = times (rate_of_mismatch t) 100"

section \<open>Grouped aggregations (lines 107, 187 and 197)\<close>

text \<open>
  \<^verbatim>\<open>groupby(keys)[column]\<close> with the default \<^verbatim>\<open>sort=True\<close>: one group per distinct key,
  the groups in ascending key order, each holding its values in row order. Strings compare
  as in Python, character by character; a pair of keys compares lexicographically.
\<close>

definition groupby :: "('k::linorder) list \<Rightarrow> 'v list \<Rightarrow> ('k \<times> 'v list) list" where
  "groupby ks vs =
     map (\<lambda>k. (k, map snd (filter (\<lambda>kv. fst kv = k) (zip ks vs)))) (sort (remdups ks))"

text \<open>\<^verbatim>\<open>series.reindex(labels)\<close>: one entry per label, in the labels' order; NaN where the
  series has no such label.\<close>

definition reindex :: "('k \<times> pyfloat) list \<Rightarrow> 'k list \<Rightarrow> ('k \<times> pyfloat) list" where
  "reindex s labels =
     map (\<lambda>l. (l, case map_of s l of None \<Rightarrow> NaN | Some v \<Rightarrow> v)) labels"

definition order :: "string list" where
  "order = [''January'', ''February'', ''March'', ''April'', ''May'', ''June'', ''July'',
            ''August'', ''September'', ''October'', ''November'', ''December'']"

text \<open>Line 107; \<^verbatim>\<open>reset_index()\<close> turns the keys into columns and keeps the row order.\<close>

definition monthly_adr :: "frame \<Rightarrow> ((int \<times> string) \<times> pyfloat) list" where
  "monthly_adr t =
     map (\<lambda>g. (fst g, mean_s (snd g)))
       (groupby (zip (col arrival_date_year t) (col arrival_date_month t)) (col adr t))"

text \<open>Line 187.\<close>

definition month_cancel :: "frame \<Rightarrow> (string \<times> pyfloat) list" where
  "month_cancel t =
     reindex
       (map (\<lambda>g. (fst g, mean_s (map rat_of_int (snd g))))
          (groupby (col arrival_date_month t) (col is_canceled t)))
       order"

text \<open>
  Line 197, on the series that line 196 stored as the column \<^verbatim>\<open>revenue\<close>. The sum of one
  group is computed by pandas' grouped summation, which is a parameter here.
\<close>

definition revenue_month ::
  "(pyfloat list \<Rightarrow> pyfloat) \<Rightarrow> frame \<Rightarrow> pyfloat list \<Rightarrow> (string \<times> pyfloat) list" where
  "revenue_month group_sum t revenue =
     reindex
       (map (\<lambda>g. (fst g, group_sum (snd g)))
          (groupby (col arrival_date_month t) revenue))
       order"

section \<open>The script as a state transformer\<close>









section \<open>A sample booking\<close>

text \<open>A booking with the given hotel, year, month, adr and cancellation flag, of a new guest
  staying two week nights and one weekend night; the concrete checks below are built from
  it.\<close>

definition sample_row :: "string \<Rightarrow> int \<Rightarrow> string \<Rightarrow> rat \<Rightarrow> int \<Rightarrow> booking" where
  "sample_row h y m a c =
     \<lparr>hotel = h, arrival_date_year = y, arrival_date_month = m, customer_type = ''Transient'',
      adr = a, is_canceled = c, stays_in_week_nights = 2, stays_in_weekend_nights = 1,
      market_segment = ''Direct'', assigned_room_type = ''A'', reserved_room_type = ''A'',
      is_repeated_guest = 0\<rparr>"

section \<open>Facts about masks\<close>

lemma and_s_map: "and_s (map p xs) (map q xs) = map (\<lambda>x. p x \<and> q x) xs"
  by (induction xs) (simp_all add: and_s_def)

lemma select_map: "select (map p xs) xs = filter p xs"
  by (induction xs) (simp_all add: select_def)

lemma zip_as_positions:
  "length ys = length xs \<Longrightarrow> zip xs ys = map (\<lambda>i. (xs ! i, ys ! i)) [0..<length xs]"
  by (rule nth_equalityI) simp_all

lemma select_nth:
  assumes "length msk = length xs"
  shows "select msk xs = map (\<lambda>i. xs ! i) (filter (\<lambda>i. msk ! i) [0..<length xs])"
  by (simp add: select_def zip_as_positions [OF assms] filter_map comp_def)

lemma filter_mask_map:
  "filter_mask df spec =
     map (\<lambda>r. hotel r \<in> set (hotel_types spec) \<and>
               arrival_date_year r \<in> set (years spec) \<and>
               arrival_date_month r \<in> set (months spec) \<and>
               customer_type r \<in> set (customer_types spec) \<and>
               of_int (fst (adr_range spec)) \<le> adr r \<and>
               adr r \<le> of_int (snd (adr_range spec)))
         (rows df)"
  by (simp add: filter_mask_def isin_def between_def col_def and_s_map)

lemma rows_filtered_df:
  "rows (filtered_df df spec) =
     filter (\<lambda>r. hotel r \<in> set (hotel_types spec) \<and>
                  arrival_date_year r \<in> set (years spec) \<and>
                  arrival_date_month r \<in> set (months spec) \<and>
                  customer_type r \<in> set (customer_types spec) \<and>
                  of_int (fst (adr_range spec)) \<le> adr r \<and>
                  adr r \<le> of_int (snd (adr_range spec)))
            (rows df)"
  by (simp add: filtered_df_def getitem_mask_def filter_mask_map select_map)

section \<open>Facts about float64 rounding\<close>

text \<open>\<open>ilog2\<close> is the integer part of the binary logarithm.\<close>

lemma ilog2_lower:
  assumes "0 < x"
  shows "2 powi (ilog2 x) \<le> x"
proof -
  obtain p q where pq: "quotient_of x = (p, q)" by (cases "quotient_of x")
  then have q: "0 < q" and x: "x = of_int p / of_int q"
    by (rule quotient_of_denom_pos, rule quotient_of_div)
  from assms q x have p: "0 < p" by (simp add: zero_less_divide_iff)
  let ?k = "bitlen p - bitlen q"
  show ?thesis
  proof (cases "2 powi ?k \<le> x")
    case True
    then show ?thesis by (simp add: ilog2_def pq)
  next
    case False
    have bp: "1 \<le> bitlen p" using p by (simp add: bitlen_alt_def)
    have bq: "0 \<le> bitlen q" by (rule bitlen_nonneg)
    from bitlen_bounds [OF p] have "2 ^ nat (bitlen p - 1) \<le> p" by simp
    then have "rat_of_int (2 ^ nat (bitlen p - 1)) \<le> of_int p" by (simp only: of_int_le_iff)
    then have lo: "2 powi (bitlen p - 1) \<le> rat_of_int p"
      using bp by (simp add: power_int_def)
    from bitlen_bounds [OF q] have "q < 2 ^ nat (bitlen q)" by simp
    then have "rat_of_int q < of_int (2 ^ nat (bitlen q))" by (simp only: of_int_less_iff)
    then have hi: "rat_of_int q \<le> 2 powi (bitlen q)"
      using bq by (simp add: power_int_def)
    have "?k - 1 = (bitlen p - 1) - bitlen q" by simp
    then have "2 powi (?k - 1) = (2 powi (bitlen p - 1) :: rat) / 2 powi (bitlen q)"
      by (simp only: power_int_diff [of "2::rat", simplified])
    also have "\<dots> \<le> of_int p / 2 powi (bitlen q)"
      using lo by (simp add: divide_right_mono)
    also have "\<dots> \<le> of_int p / of_int q"
      using hi p q by (simp add: divide_left_mono)
    finally have "2 powi (?k - 1) \<le> x" by (simp add: x)
    with False show ?thesis by (simp add: ilog2_def pq)
  qed
qed

lemma ilog2_upper:
  assumes "0 < x"
  shows "x < 2 powi (ilog2 x + 1)"
proof -
  obtain p q where pq: "quotient_of x = (p, q)" by (cases "quotient_of x")
  then have q: "0 < q" and x: "x = of_int p / of_int q"
    by (rule quotient_of_denom_pos, rule quotient_of_div)
  from assms q x have p: "0 < p" by (simp add: zero_less_divide_iff)
  let ?k = "bitlen p - bitlen q"
  show ?thesis
  proof (cases "2 powi ?k \<le> x")
    case False
    then show ?thesis by (simp add: ilog2_def pq)
  next
    case True
    have bp: "0 \<le> bitlen p" by (rule bitlen_nonneg)
    have bq: "1 \<le> bitlen q" using q by (simp add: bitlen_alt_def)
    from bitlen_bounds [OF p] have "p < 2 ^ nat (bitlen p)" by simp
    then have "rat_of_int p < of_int (2 ^ nat (bitlen p))" by (simp only: of_int_less_iff)
    then have hi: "rat_of_int p < 2 powi (bitlen p)"
      using bp by (simp add: power_int_def)
    from bitlen_bounds [OF q] have "2 ^ nat (bitlen q - 1) \<le> q" by simp
    then have "rat_of_int (2 ^ nat (bitlen q - 1)) \<le> of_int q" by (simp only: of_int_le_iff)
    then have lo: "2 powi (bitlen q - 1) \<le> rat_of_int q"
      using bq by (simp add: power_int_def)
    have pos: "(0::rat) < 2 powi (bitlen q - 1)" by (simp add: power_int_def)
    have "x = of_int p / of_int q" by (rule x)
    also have "\<dots> \<le> of_int p / 2 powi (bitlen q - 1)"
    proof (rule divide_left_mono)
      show "2 powi (bitlen q - 1) \<le> rat_of_int q" by (rule lo)
      show "0 \<le> rat_of_int p" using p by simp
      show "0 < rat_of_int q * 2 powi (bitlen q - 1)" using q pos by simp
    qed
    also have "\<dots> < 2 powi (bitlen p) / 2 powi (bitlen q - 1)"
      using hi pos by (simp add: divide_strict_right_mono)
    also have "\<dots> = 2 powi (bitlen p - (bitlen q - 1))"
      by (simp only: power_int_diff [of "2::rat", simplified])
    finally have "x < 2 powi (?k + 1)" by (simp add: algebra_simps)
    with True show ?thesis by (simp add: ilog2_def pq)
  qed
qed

lemma round_half_even_of_int: "round_half_even (of_int n) = n"
  by (simp add: round_half_even_def)

text \<open>A value with at most 53 significant bits in the exponent range is not changed.\<close>

lemma round64_exact:
  assumes x: "x = of_int m * 2 powi g"
    and m: "\<bar>m\<bar> < 2 ^ 53"
    and g: "- 1074 \<le> g" "g \<le> 970"
  shows "round64 x = Fin x"
proof (cases "x = 0")
  case True
  then show ?thesis by (simp add: round64_def)
next
  case False
  define e where "e = max (ilog2 \<bar>x\<bar> - 52) (- 1074)"
  have absx: "\<bar>x\<bar> = of_int \<bar>m\<bar> * 2 powi g"
    by (simp add: x abs_mult power_int_abs)
  have "rat_of_int \<bar>m\<bar> < of_int (2 ^ 53)" using m by (simp only: of_int_less_iff)
  then have "\<bar>x\<bar> < 2 ^ 53 * 2 powi g"
    unfolding absx by (simp add: mult_strict_right_mono)
  also have "\<dots> = 2 powi (53 + g)" by (simp add: power_int_add)
  finally have up: "\<bar>x\<bar> < 2 powi (53 + g)" .
  have "ilog2 \<bar>x\<bar> < 53 + g"
  proof (rule ccontr)
    assume "\<not> ilog2 \<bar>x\<bar> < 53 + g"
    then have "(2::rat) powi (53 + g) \<le> 2 powi (ilog2 \<bar>x\<bar>)"
      by (intro power_int_increasing) simp_all
    also have "\<dots> \<le> \<bar>x\<bar>" using False by (intro ilog2_lower) simp
    finally show False using up by simp
  qed
  with g have eg: "e \<le> g" by (simp add: e_def)
  have "x / 2 powi e = of_int m * 2 powi (g - e)"
    by (simp add: x power_int_diff)
  also have "\<dots> = of_int (m * 2 ^ nat (g - e))"
    using eg by (simp add: power_int_def)
  finally have q: "x / 2 powi e = of_int (m * 2 ^ nat (g - e))" .
  have r: "of_int (round_half_even (x / 2 powi e)) * 2 powi e = x"
    unfolding q round_half_even_of_int unfolding q [symmetric] by simp
  have "\<bar>x\<bar> < 2 powi (53 + g)" by (rule up)
  also have "\<dots> \<le> 2 powi 1024" using g by (intro power_int_increasing) simp_all
  finally have "\<bar>x\<bar> < 2 ^ 1024" by simp
  then show ?thesis
    using False r by (simp add: round64_def Let_def e_def [symmetric])
qed

lemma round64_on_grid:
  assumes "\<exists>k. x = of_int k * 2 powi g"
    and "\<bar>x\<bar> < 2 ^ 53 * 2 powi g"
    and "- 1074 \<le> g" "g \<le> 970"
  shows "round64 x = Fin x"
proof -
  from assms(1) obtain k where k: "x = of_int k * 2 powi g" ..
  have pos: "(0::rat) < 2 powi g" by (simp add: power_int_def)
  have "rat_of_int \<bar>k\<bar> * 2 powi g = \<bar>x\<bar>"
    by (simp add: k abs_mult power_int_abs)
  with assms(2) have "rat_of_int \<bar>k\<bar> * 2 powi g < 2 ^ 53 * 2 powi g" by simp
  with pos have "rat_of_int \<bar>k\<bar> < 2 ^ 53" by (simp only: mult_less_cancel_right_pos)
  then have "rat_of_int \<bar>k\<bar> < of_int (2 ^ 53)" by simp
  then have "\<bar>k\<bar> < 2 ^ 53" by (simp only: of_int_less_iff)
  from k this assms(3,4) show ?thesis by (rule round64_exact)
qed

lemma of_int64_exact: "\<bar>n\<bar> < 2 ^ 53 \<Longrightarrow> of_int64 n = Fin (of_int n)"
  unfolding of_int64_def by (rule round64_exact [where g = 0]) simp_all

lemma wrap64_id: "- (2 ^ 63) \<le> n \<Longrightarrow> n < 2 ^ 63 \<Longrightarrow> wrap64 n = n"
  by (simp add: wrap64_def)

section \<open>Facts about series arithmetic and the sidebar defaults\<close>

lemma add_s_map: "add_s (map f xs) (map g xs) = map (\<lambda>x. wrap64 (f x + g x)) xs"
  by (induction xs) (simp_all add: add_s_def)

lemma mul_s_map:
  "mul_s (map f xs) (map g xs) = map (\<lambda>x. fmul (Fin (f x)) (of_int64 (g x))) xs"
  by (induction xs) (simp_all add: mul_s_def)

lemma revenue_series_map:
  "revenue_series t =
     map (\<lambda>r. fmul (Fin (adr r))
                 (of_int64 (wrap64 (stays_in_week_nights r + stays_in_weekend_nights r))))
       (rows t)"
  by (simp add: revenue_series_def col_def add_s_map mul_s_map)

lemma sum_list_on_grid:
  "\<forall>v \<in> set vs. \<exists>k. v = rat_of_int k * c \<Longrightarrow> \<exists>k. sum_list vs = rat_of_int k * c"
proof (induction vs)
  case Nil
  have "sum_list [] = rat_of_int 0 * c" by simp
  then show ?case ..
next
  case (Cons v vs)
  then obtain k l where "v = rat_of_int k * c" and "sum_list vs = rat_of_int l * c"
    by auto
  then have "sum_list (v # vs) = rat_of_int (k + l) * c" by (simp add: algebra_simps)
  then show ?case ..
qed

text \<open>A plan whose additions never round returns the exact sum of its terms.\<close>

lemma run_plan_exact:
  assumes g: "- 1074 \<le> g" "g \<le> 970"
    and grid: "\<forall>v \<in> set vs. \<exists>k. v = rat_of_int k * 2 powi g"
  shows "set (terms p) \<subseteq> {..<length vs} \<Longrightarrow>
         (\<Sum>i\<leftarrow>terms p. \<bar>vs ! i\<bar>) < 2 ^ 53 * 2 powi g \<Longrightarrow>
         run_plan p (map Fin vs) = Fin (\<Sum>i\<leftarrow>terms p. vs ! i)"
proof (induction p)
  case (Term i)
  then show ?case by simp
next
  case (Plus p q)
  have np: "0 \<le> (\<Sum>i\<leftarrow>terms p. \<bar>vs ! i\<bar>)" and nq: "0 \<le> (\<Sum>i\<leftarrow>terms q. \<bar>vs ! i\<bar>)"
    by (rule sum_list_nonneg, auto)+
  from Plus.prems have rp: "run_plan p (map Fin vs) = Fin (\<Sum>i\<leftarrow>terms p. vs ! i)"
    using nq by (intro Plus.IH) simp_all
  from Plus.prems have rq: "run_plan q (map Fin vs) = Fin (\<Sum>i\<leftarrow>terms q. vs ! i)"
    using np by (intro Plus.IH) simp_all
  let ?s = "\<Sum>i\<leftarrow>terms (Plus p q). vs ! i"
  have "\<forall>v \<in> set (map (\<lambda>i. vs ! i) (terms (Plus p q))). \<exists>k. v = rat_of_int k * 2 powi g"
    using Plus.prems(1) grid by auto
  then have on: "\<exists>k. ?s = rat_of_int k * 2 powi g" by (rule sum_list_on_grid)
  have "\<bar>?s\<bar> \<le> (\<Sum>i\<leftarrow>terms (Plus p q). \<bar>vs ! i\<bar>)"
    using sum_list_abs [of "map (\<lambda>i. vs ! i) (terms (Plus p q))"] by (simp add: comp_def)
  with Plus.prems(2) have "\<bar>?s\<bar> < 2 ^ 53 * 2 powi g" by simp
  with on have "round64 ?s = Fin ?s" using g by (rule round64_on_grid)
  then show ?case by (simp add: rp rq)
qed

lemma valid_plan_sum:
  fixes f :: "rat \<Rightarrow> rat"
  assumes "sort (terms p) = [0..<length vs]"
  shows "(\<Sum>i\<leftarrow>terms p. f (vs ! i)) = sum_list (map f vs)"
proof -
  have "mset (sort (terms p)) = mset (terms p)" by simp
  with assms have "mset (terms p) = mset [0..<length vs]" by simp
  then have "mset (map (\<lambda>i. f (vs ! i)) (terms p)) = mset (map (\<lambda>i. f (vs ! i)) [0..<length vs])"
    by simp
  then have "sum_mset (mset (map (\<lambda>i. f (vs ! i)) (terms p)))
      = sum_mset (mset (map (\<lambda>i. f (vs ! i)) [0..<length vs]))"
    by (rule arg_cong)
  then have "(\<Sum>i\<leftarrow>terms p. f (vs ! i)) = (\<Sum>i\<leftarrow>[0..<length vs]. f (vs ! i))"
    by (simp only: sum_mset_sum_list)
  also have "map (\<lambda>i. f (vs ! i)) [0..<length vs] = map f vs"
    by (rule nth_equalityI) simp_all
  finally show ?thesis .
qed

lemma valid_plan_terms:
  assumes "sort (terms p) = [0..<n]"
  shows "set (terms p) \<subseteq> {..<n}"
proof -
  have "set (terms p) = set (sort (terms p))" by simp
  also have "\<dots> = set [0..<n]" by (simp only: assms)
  finally show ?thesis by auto
qed

lemma sum_s_exact:
  assumes g: "- 1074 \<le> g" "g \<le> 970"
    and grid: "\<forall>v \<in> set vs. \<exists>k. v = rat_of_int k * 2 powi g"
    and bound: "(\<Sum>v\<leftarrow>vs. \<bar>v\<bar>) < 2 ^ 53 * 2 powi g"
    and plan: "valid_plan p (length vs)"
  shows "sum_s p (map Fin vs) = Fin (sum_list vs)"
proof (cases "vs = []")
  case True
  then show ?thesis by (simp add: sum_s_def)
next
  case False
  with plan have srt: "sort (terms p) = [0..<length vs]" by (simp add: valid_plan_def)
  have same: "map (\<lambda>v. if v = NaN then Fin 0 else v) (map Fin vs) = map Fin vs"
    by (simp add: comp_def)
  have "(\<Sum>i\<leftarrow>terms p. \<bar>vs ! i\<bar>) = (\<Sum>v\<leftarrow>vs. \<bar>v\<bar>)"
    using srt by (rule valid_plan_sum)
  with bound have "(\<Sum>i\<leftarrow>terms p. \<bar>vs ! i\<bar>) < 2 ^ 53 * 2 powi g" by simp
  with g grid valid_plan_terms [OF srt]
  have "run_plan p (map Fin vs) = Fin (\<Sum>i\<leftarrow>terms p. vs ! i)"
    by (rule run_plan_exact)
  moreover have "(\<Sum>i\<leftarrow>terms p. vs ! i) = sum_list vs"
    using valid_plan_sum [OF srt, of "\<lambda>v. v"] by simp
  ultimately show ?thesis using False unfolding sum_s_def same by simp
qed

lemma member_le_sum_list_abs:
  fixes f :: "'a \<Rightarrow> rat"
  shows "x \<in> set xs \<Longrightarrow> \<bar>f x\<bar> \<le> (\<Sum>y\<leftarrow>xs. \<bar>f y\<bar>)"
proof (induction xs)
  case Nil
  then show ?case by simp
next
  case (Cons a xs)
  have "0 \<le> (\<Sum>y\<leftarrow>xs. \<bar>f y\<bar>)" by (rule sum_list_nonneg) auto
  with Cons show ?case by auto
qed

lemma set_unique: "set (unique xs) = set xs"
  by (induction xs rule: unique.induct) auto

lemma min_s_Min: "xs \<noteq> [] \<Longrightarrow> min_s xs = Fin (Min (set xs))"
  by (cases xs) (simp_all add: Min.set_eq_fold [symmetric])

lemma max_s_Max: "xs \<noteq> [] \<Longrightarrow> max_s xs = Fin (Max (set xs))"
  by (cases xs) (simp_all add: Max.set_eq_fold [symmetric])

text \<open>Without rows, and with equal truncated extremes, the sidebar raises.\<close>

lemma default_spec_empty: "rows df = [] \<Longrightarrow> default_spec df = Inl ValueError"
  by (simp add: default_spec_def col_def)

lemma default_spec_no_slider:
  assumes "rows df \<noteq> []"
    and "py_trunc (Min (set (col adr df))) = py_trunc (Max (set (col adr df)))"
  shows "default_spec df = Inl StreamlitAPIException"
proof -
  from assms(1) have ne: "col adr df \<noteq> []" by (simp add: col_def)
  show ?thesis
    using assms(2)
    by (simp add: default_spec_def min_s_Min [OF ne] max_s_Max [OF ne] slider_def)
qed

section \<open>Facts about the grouped aggregations\<close>

lemma map_fst_groupby: "map fst (groupby ks vs) = sort (remdups ks)"
  by (simp add: groupby_def comp_def)

lemma monthly_adr_keys:
  "map fst (monthly_adr t) =
     sort (remdups (zip (col arrival_date_year t) (col arrival_date_month t)))"
  by (simp add: monthly_adr_def comp_def map_fst_groupby)

lemma map_fst_reindex: "map fst (reindex s labels) = labels"
  by (simp add: reindex_def comp_def)

text \<open>The two series that are reindexed carry exactly the twelve months, January first.\<close>

lemma month_cancel_keys: "map fst (month_cancel t) = order"
  by (simp add: month_cancel_def map_fst_reindex)

lemma revenue_month_keys: "map fst (revenue_month group_sum t revenue) = order"
  by (simp add: revenue_month_def map_fst_reindex)

section \<open>The filter keeps exactly the rows that pass all five tests\<close>

text \<open>
  Claim C1. For every table and every selection, the filtered table consists of exactly the
  rows of the source for which all five tests hold: hotel among the selected hotels, arrival
  year among the selected years, arrival month among the selected months, customer type among
  the selected customer types, and adr between the two bounds, both included. So the filtered
  table has at most as many rows as the source.
\<close>

theorem filter_keeps_exactly_the_conjunction:
  "rows (filtered_df df spec) =
     filter (\<lambda>r. hotel r \<in> set (hotel_types spec) \<and>
                  arrival_date_year r \<in> set (years spec) \<and>
                  arrival_date_month r \<in> set (months spec) \<and>
                  customer_type r \<in> set (customer_types spec) \<and>
                  of_int (fst (adr_range spec)) \<le> adr r \<and>
                  adr r \<le> of_int (snd (adr_range spec)))
            (rows df)
   \<and> length (rows (filtered_df df spec)) \<le> length (rows df)"
  by (simp add: rows_filtered_df)

section \<open>Means of an empty table\<close>

text \<open>
  Claim C2, as the code has it. For a table without rows, the mean of adr, the mean of
  is_canceled and the share of rows whose assigned room type differs from the reserved one are
  each NaN, the value pandas gives for the mean of an empty series. No error is raised, and
  no separate "no data" result exists: the NaN itself, multiplied by 100 for the two rates,
  is what the caller formats.
\<close>

theorem empty_table_means_are_nan:
  assumes "rows t = []"
  shows "average_adr t = NaN \<and> cancellation_rate t = NaN \<and> cancellation_rate_percent t = NaN
         \<and> rate_of_mismatch t = NaN \<and> upgrade_rate t = NaN"
  using assms
  by (simp add: average_adr_def cancellation_rate_def cancellation_rate_percent_def
      rate_of_mismatch_def upgrade_rate_def mean_s_def col_def ne_s_def as_number_def)

text \<open>The theorem at the table that a selection of an absent hotel leaves.\<close>

theorem empty_table_means_are_nan_witness:
  "rows (filtered_df \<lparr>rows = [sample_row ''City Hotel'' 2021 ''January'' 100 0], added = []\<rparr>
        \<lparr>hotel_types = [''Resort Hotel''], years = [2021], months = [''January''],
         customer_types = [''Transient''], adr_range = (0, 150)\<rparr>) = []
   \<and> average_adr
       (filtered_df \<lparr>rows = [sample_row ''City Hotel'' 2021 ''January'' 100 0], added = []\<rparr>
        \<lparr>hotel_types = [''Resort Hotel''], years = [2021], months = [''January''],
         customer_types = [''Transient''], adr_range = (0, 150)\<rparr>) = NaN
   \<and> cancellation_rate_percent
       (filtered_df \<lparr>rows = [sample_row ''City Hotel'' 2021 ''January'' 100 0], added = []\<rparr>
        \<lparr>hotel_types = [''Resort Hotel''], years = [2021], months = [''January''],
         customer_types = [''Transient''], adr_range = (0, 150)\<rparr>) = NaN
   \<and> upgrade_rate
       (filtered_df \<lparr>rows = [sample_row ''City Hotel'' 2021 ''January'' 100 0], added = []\<rparr>
        \<lparr>hotel_types = [''Resort Hotel''], years = [2021], months = [''January''],
         customer_types = [''Transient''], adr_range = (0, 150)\<rparr>) = NaN"
proof -
  let ?t = "filtered_df
        \<lparr>rows = [sample_row ''City Hotel'' 2021 ''January'' 100 0], added = []\<rparr>
        \<lparr>hotel_types = [''Resort Hotel''], years = [2021], months = [''January''],
         customer_types = [''Transient''], adr_range = (0, 150)\<rparr>"
  have e: "rows ?t = []" by (simp add: rows_filtered_df sample_row_def)
  from empty_table_means_are_nan [OF e] e show ?thesis by simp
qed

text \<open>The claim as the specification words it, "never a NaN", fails at the empty table.\<close>

theorem empty_table_nan_counterexample:
  "average_adr \<lparr>rows = [], added = []\<rparr> = NaN
   \<and> cancellation_rate \<lparr>rows = [], added = []\<rparr> = NaN
   \<and> rate_of_mismatch \<lparr>rows = [], added = []\<rparr> = NaN"
  by (simp add: average_adr_def cancellation_rate_def rate_of_mismatch_def mean_s_def col_def
      ne_s_def as_number_def)

section \<open>What the script changes\<close>



section \<open>The order of the monthly series\<close>

text \<open>
  Claim C4 says that every aggregation grouped by arrival month comes out in calendar order.
  The cancellation and revenue series do (\<open>month_cancel_keys\<close>, \<open>revenue_month_keys\<close>);
  the ADR series of line 107 is not reindexed. For a table with one booking in January 2021
  (adr 100) and one in April 2021 (adr 80), its rows are April first, then January: the
  ascending order of the key pairs, in which month names compare as strings.
\<close>

theorem monthly_adr_is_in_string_order:
  "monthly_adr
      \<lparr>rows = [sample_row ''City Hotel'' 2021 ''January'' 100 0,
               sample_row ''City Hotel'' 2021 ''April'' 80 0],
       added = []\<rparr>
   = [((2021, ''April''), Fin 80), ((2021, ''January''), Fin 100)]"
  by (simp add: monthly_adr_def groupby_def mean_s_def col_def sample_row_def)

section \<open>Empty selections\<close>

text \<open>
  Claim C5. When the selection of hotels, of years, of months or of customer types is empty,
  the filtered table has no rows, whatever the source table holds: an empty selection matches
  nothing.
\<close>

theorem empty_selection_matches_nothing:
  assumes "hotel_types spec = [] \<or> years spec = [] \<or> months spec = []
           \<or> customer_types spec = []"
  shows "rows (filtered_df df spec) = []"
  using assms by (auto simp add: rows_filtered_df)

theorem empty_selection_matches_nothing_witness:
  "hotel_types \<lparr>hotel_types = [], years = [2021], months = [''January''],
                 customer_types = [''Transient''], adr_range = (0, 150)\<rparr> = []
   \<and> rows \<lparr>rows = [sample_row ''City Hotel'' 2021 ''January'' 100 0], added = []\<rparr> \<noteq> []
   \<and> rows (filtered_df
        \<lparr>rows = [sample_row ''City Hotel'' 2021 ''January'' 100 0], added = []\<rparr>
        \<lparr>hotel_types = [], years = [2021], months = [''January''],
         customer_types = [''Transient''], adr_range = (0, 150)\<rparr>) = []"
  using empty_selection_matches_nothing
    [of "\<lparr>hotel_types = [], years = [2021], months = [''January''],
          customer_types = [''Transient''], adr_range = (0, 150)\<rparr>"
        "\<lparr>rows = [sample_row ''City Hotel'' 2021 ''January'' 100 0], added = []\<rparr>"]
  by simp

section \<open>Inverted adr range\<close>

text \<open>
  Claim C6. When the lower bound of the adr range is greater than the upper bound, the
  filtered table has no rows, for every table and whatever the other selections are. The
  filter is a total function: it has no error result.
\<close>

theorem inverted_range_matches_nothing:
  assumes "snd (adr_range spec) < fst (adr_range spec)"
  shows "rows (filtered_df df spec) = []"
proof -
  have "\<not> (of_int (fst (adr_range spec)) \<le> adr r \<and> adr r \<le> of_int (snd (adr_range spec)))"
    for r
  proof
    assume "of_int (fst (adr_range spec)) \<le> adr r \<and> adr r \<le> of_int (snd (adr_range spec))"
    then have "rat_of_int (fst (adr_range spec)) \<le> of_int (snd (adr_range spec))" by simp
    then have "fst (adr_range spec) \<le> snd (adr_range spec)" by (simp only: of_int_le_iff)
    with assms show False by simp
  qed
  then show ?thesis unfolding rows_filtered_df filter_empty_conv by blast
qed

theorem inverted_range_matches_nothing_witness:
  "snd (adr_range \<lparr>hotel_types = [''City Hotel''], years = [2021], months = [''January''],
                   customer_types = [''Transient''], adr_range = (200, 50)\<rparr>)
     < fst (adr_range \<lparr>hotel_types = [''City Hotel''], years = [2021], months = [''January''],
                       customer_types = [''Transient''], adr_range = (200, 50)\<rparr>)
   \<and> rows (filtered_df
        \<lparr>rows = [sample_row ''City Hotel'' 2021 ''January'' 100 0], added = []\<rparr>
        \<lparr>hotel_types = [''City Hotel''], years = [2021], months = [''January''],
         customer_types = [''Transient''], adr_range = (200, 50)\<rparr>) = []"
  using inverted_range_matches_nothing
    [of "\<lparr>hotel_types = [''City Hotel''], years = [2021], months = [''January''],
          customer_types = [''Transient''], adr_range = (200, 50)\<rparr>"
        "\<lparr>rows = [sample_row ''City Hotel'' 2021 ''January'' 100 0], added = []\<rparr>"]
  by simp

section \<open>Total revenue\<close>

text \<open>
  Claim C7, as the code has it. The total revenue of line 66 is computed in int64 and
  float64. It equals the sum over the rows of adr times the sum of week nights and weekend
  nights for every table on which no operation wraps or rounds: the nights of each row add up
  to less than \<open>2^53\<close> in magnitude, the products of the rows are multiples of one power of
  two \<open>2^g\<close> with \<open>g\<close> from \<open>-1074\<close> to \<open>970\<close>, and their magnitudes add up to less than
  \<open>2^53 * 2^g\<close>. This holds for every order in which the sum adds the entries. For a table
  without rows the total is 0.
\<close>

theorem total_revenue_is_the_sum_when_exact:
  assumes plan: "valid_plan p (length (rows t))"
    and g: "- 1074 \<le> g" "g \<le> 970"
    and nights: "\<forall>r \<in> set (rows t).
                   \<bar>stays_in_week_nights r + stays_in_weekend_nights r\<bar> < 2 ^ 53"
    and grid: "\<forall>r \<in> set (rows t). \<exists>k.
                   adr r * of_int (stays_in_week_nights r + stays_in_weekend_nights r)
                     = of_int k * 2 powi g"
    and bound: "(\<Sum>r\<leftarrow>rows t.
                   \<bar>adr r * of_int (stays_in_week_nights r + stays_in_weekend_nights r)\<bar>)
                 < 2 ^ 53 * 2 powi g"
  shows "total_revenue p t
           = Fin (\<Sum>r\<leftarrow>rows t.
                    adr r * of_int (stays_in_week_nights r + stays_in_weekend_nights r))
         \<and> total_revenue q \<lparr>rows = [], added = a\<rparr> = Fin 0"
proof -
  let ?n = "\<lambda>r. stays_in_week_nights r + stays_in_weekend_nights r"
  let ?v = "\<lambda>r. adr r * of_int (?n r)"
  have each: "fmul (Fin (adr r)) (of_int64 (wrap64 (?n r))) = Fin (?v r)"
    if r: "r \<in> set (rows t)" for r
  proof -
    from nights r have n: "\<bar>?n r\<bar> < 2 ^ 53" by blast
    then have w: "wrap64 (?n r) = ?n r" by (intro wrap64_id) simp_all
    have "\<bar>?v r\<bar> \<le> (\<Sum>y\<leftarrow>rows t. \<bar>?v y\<bar>)" using r by (rule member_le_sum_list_abs)
    with bound have b: "\<bar>?v r\<bar> < 2 ^ 53 * 2 powi g" by simp
    from grid r have "\<exists>k. ?v r = of_int k * 2 powi g" by blast
    then have "round64 (?v r) = Fin (?v r)" using b g by (rule round64_on_grid)
    then show ?thesis by (simp add: w of_int64_exact [OF n])
  qed
  have series: "revenue_series t = map Fin (map ?v (rows t))"
    unfolding revenue_series_map using each by simp
  have "\<forall>v \<in> set (map ?v (rows t)). \<exists>k. v = rat_of_int k * 2 powi g"
    using grid by simp
  moreover have "(\<Sum>v\<leftarrow>map ?v (rows t). \<bar>v\<bar>) < 2 ^ 53 * 2 powi g"
    using bound by (simp add: comp_def)
  moreover have "valid_plan p (length (map ?v (rows t)))" using plan by simp
  ultimately have "sum_s p (map Fin (map ?v (rows t))) = Fin (sum_list (map ?v (rows t)))"
    using g by (intro sum_s_exact) 
  then have "total_revenue p t = Fin (\<Sum>r\<leftarrow>rows t. ?v r)"
    by (simp add: total_revenue_def series)
  moreover have "total_revenue q \<lparr>rows = [], added = a\<rparr> = Fin 0"
    by (simp add: total_revenue_def sum_s_def revenue_series_map)
  ultimately show ?thesis by simp
qed

text \<open>With adr 50 and 100.5 and three nights each, the products are 150 and 301.5.\<close>

theorem total_revenue_is_the_sum_when_exact_witness:
  "valid_plan (Plus (Term 0) (Term 1))
     (length (rows \<lparr>rows = [sample_row ''City Hotel'' 2021 ''January'' 50 0,
                            sample_row ''City Hotel'' 2021 ''April'' (201 / 2) 0],
                    added = []\<rparr>))
   \<and> total_revenue (Plus (Term 0) (Term 1))
        \<lparr>rows = [sample_row ''City Hotel'' 2021 ''January'' 50 0,
                 sample_row ''City Hotel'' 2021 ''April'' (201 / 2) 0],
         added = []\<rparr>
      = Fin (903 / 2)"
proof -
  let ?t = "\<lparr>rows = [sample_row ''City Hotel'' 2021 ''January'' 50 0,
                 sample_row ''City Hotel'' 2021 ''April'' (201 / 2) 0],
         added = []\<rparr>"
  have plan: "valid_plan (Plus (Term 0) (Term 1)) (length (rows ?t))"
    by (simp add: valid_plan_def upt_rec)
  have g: "- 1074 \<le> (- 1 :: int)" "(- 1 :: int) \<le> 970" by simp_all
  have nights: "\<forall>r \<in> set (rows ?t).
                   \<bar>stays_in_week_nights r + stays_in_weekend_nights r\<bar> < 2 ^ 53"
    by (simp add: sample_row_def)
  have k1: "\<exists>k. (150::rat) = rat_of_int k / 2" by (rule exI [of _ 300]) simp
  have k2: "\<exists>k. (603::rat) = rat_of_int k" by (rule exI [of _ 603]) simp
  have grid: "\<forall>r \<in> set (rows ?t). \<exists>k.
                   adr r * of_int (stays_in_week_nights r + stays_in_weekend_nights r)
                     = of_int k * 2 powi (- 1)"
    by (simp add: sample_row_def k1 k2)
  have bound: "(\<Sum>r\<leftarrow>rows ?t.
                   \<bar>adr r * of_int (stays_in_week_nights r + stays_in_weekend_nights r)\<bar>)
                 < 2 ^ 53 * 2 powi (- 1)"
    by (simp add: sample_row_def)
  from total_revenue_is_the_sum_when_exact [OF plan g nights grid bound]
  have "total_revenue (Plus (Term 0) (Term 1)) ?t
           = Fin (\<Sum>r\<leftarrow>rows ?t.
                    adr r * of_int (stays_in_week_nights r + stays_in_weekend_nights r))"
    by simp
  then have "total_revenue (Plus (Term 0) (Term 1)) ?t = Fin (903 / 2)"
    by (simp add: sample_row_def)
  with plan show ?thesis by simp
qed

text \<open>
  The claim as the specification words it fails where an operation rounds or wraps. With one
  booking whose adr is the float nearest to 0.1 and three nights, the float64 product is
  greater than the exact one. With one booking of adr 1 whose nights are \<open>2^63 - 1\<close> and 1,
  the int64 sum of the nights wraps and the total is negative.
\<close>

theorem total_revenue_rounds_counterexample:
  "total_revenue (Term 0)
      \<lparr>rows = [sample_row ''City Hotel'' 2021 ''January''
                 (3602879701896397 / 36028797018963968) 0],
       added = []\<rparr>
     = Fin (1351079888211149 / 4503599627370496)
   \<and> (\<Sum>r\<leftarrow>[sample_row ''City Hotel'' 2021 ''January''
                 (3602879701896397 / 36028797018963968) 0].
         adr r * of_int (stays_in_week_nights r + stays_in_weekend_nights r))
     = 10808639105689191 / 36028797018963968
   \<and> total_revenue (Term 0)
      \<lparr>rows = [(sample_row ''City Hotel'' 2021 ''January'' 1 0)
                 \<lparr>stays_in_week_nights := 9223372036854775807, stays_in_weekend_nights := 1\<rparr>],
       added = []\<rparr>
     = Fin (- 9223372036854775808)
   \<and> (\<Sum>r\<leftarrow>[(sample_row ''City Hotel'' 2021 ''January'' 1 0)
                 \<lparr>stays_in_week_nights := 9223372036854775807, stays_in_weekend_nights := 1\<rparr>].
         adr r * of_int (stays_in_week_nights r + stays_in_weekend_nights r))
     = 9223372036854775808"
proof -
  have r1: "round64 (10808639105689191 / 36028797018963968)
              = Fin (1351079888211149 / 4503599627370496)"
    by code_simp
  have r2: "round64 (- 9223372036854775808) = Fin (- 9223372036854775808)"
    by (rule round64_exact [where m = "- 1" and g = 63]) simp_all
  have r3: "of_int64 (- 9223372036854775808) = Fin (- 9223372036854775808)"
    using r2 by (simp add: of_int64_def)
  show ?thesis
    by (simp add: total_revenue_def sum_s_def revenue_series_map sample_row_def wrap64_def
        of_int64_exact r1 r2 r3)
qed

section \<open>The filter keeps the order of the rows\<close>

text \<open>
  Claim C9. For every table and every selection, the filtered table holds the rows of the
  source at the positions where the mask is true, taken in strictly increasing position: the
  retained rows keep the relative order they had in the source.
\<close>

theorem filter_preserves_order:
  "rows (filtered_df df spec) =
     map (\<lambda>i. rows df ! i) (filter (\<lambda>i. filter_mask df spec ! i) [0..<length (rows df)])
   \<and> sorted_wrt (<) (filter (\<lambda>i. filter_mask df spec ! i) [0..<length (rows df)])
   \<and> subseq (rows (filtered_df df spec)) (rows df)"
proof -
  have "length (filter_mask df spec) = length (rows df)"
    by (simp add: filter_mask_map)
  then have "rows (filtered_df df spec) =
     map (\<lambda>i. rows df ! i) (filter (\<lambda>i. filter_mask df spec ! i) [0..<length (rows df)])"
    by (simp add: filtered_df_def getitem_mask_def select_nth)
  moreover have "sorted_wrt (<) (filter (\<lambda>i. filter_mask df spec ! i) [0..<length (rows df)])"
    by (simp add: sorted_wrt_filter)
  moreover have "subseq (rows (filtered_df df spec)) (rows df)"
    by (simp add: rows_filtered_df)
  ultimately show ?thesis by simp
qed

section \<open>The default adr range\<close>

text \<open>
  Claim C10. For a table with at least one row whose truncated minimum adr is below its
  truncated maximum adr, the sidebar defaults exist, and the bounds of the default adr range
  are the minimum and the maximum of the adr column, each truncated to an integer by
  \<^verbatim>\<open>int\<close>. With all defaults selected, the filtered table holds exactly the rows whose adr
  lies between the truncated bounds. With that range and any selection of hotels, years,
  months and customer types, every row whose adr is greater than the truncated maximum is
  left out, though the range is the widest the slider offers.
\<close>

theorem default_range_excludes_above_truncated_max:
  assumes "rows df \<noteq> []"
    and "py_trunc (Min (set (col adr df))) < py_trunc (Max (set (col adr df)))"
  shows "\<exists>spec. default_spec df = Inr spec
           \<and> adr_range spec
               = (py_trunc (Min (set (col adr df))), py_trunc (Max (set (col adr df))))
           \<and> rows (filtered_df df spec) =
               filter (\<lambda>r. of_int (fst (adr_range spec)) \<le> adr r
                            \<and> adr r \<le> of_int (snd (adr_range spec))) (rows df)
           \<and> (\<forall>sel. adr_range sel = adr_range spec \<longrightarrow>
                 (\<forall>r \<in> set (rows df). of_int (snd (adr_range spec)) < adr r
                    \<longrightarrow> r \<notin> set (rows (filtered_df df sel))))"
proof -
  from assms(1) have ne: "col adr df \<noteq> []" by (simp add: col_def)
  define lo where "lo = py_trunc (Min (set (col adr df)))"
  define hi where "hi = py_trunc (Max (set (col adr df)))"
  define spec where "spec =
     \<lparr>hotel_types = unique (col hotel df),
      years = sort (unique (col arrival_date_year df)),
      months = unique (col arrival_date_month df),
      customer_types = unique (col customer_type df),
      adr_range = (lo, hi)\<rparr>"
  have d: "default_spec df = Inr spec"
    using assms(2)
    by (simp add: default_spec_def min_s_Min [OF ne] max_s_Max [OF ne] slider_def spec_def
        lo_def hi_def)
  have a: "adr_range spec = (lo, hi)" by (simp add: spec_def)
  have r: "rows (filtered_df df spec) =
      filter (\<lambda>r. of_int (fst (adr_range spec)) \<le> adr r
                   \<and> adr r \<le> of_int (snd (adr_range spec))) (rows df)"
    unfolding rows_filtered_df
    by (rule filter_cong) (simp_all add: spec_def set_unique col_def)
  have "\<forall>sel. adr_range sel = adr_range spec \<longrightarrow>
           (\<forall>r \<in> set (rows df). of_int (snd (adr_range spec)) < adr r
              \<longrightarrow> r \<notin> set (rows (filtered_df df sel)))"
    by (auto simp add: rows_filtered_df)
  with d a r show ?thesis unfolding lo_def hi_def by blast
qed

text \<open>
  With adr 50 and 100.5 in the table the default range is 50 to 100, and the booking at
  100.5 is filtered out, also when only its month is selected.
\<close>

theorem default_range_excludes_above_truncated_max_witness:
  "rows \<lparr>rows = [sample_row ''City Hotel'' 2021 ''January'' 50 0,
                 sample_row ''City Hotel'' 2021 ''April'' (201 / 2) 0], added = []\<rparr> \<noteq> []
   \<and> py_trunc (Min (set (col adr
        \<lparr>rows = [sample_row ''City Hotel'' 2021 ''January'' 50 0,
                 sample_row ''City Hotel'' 2021 ''April'' (201 / 2) 0], added = []\<rparr>)))
     < py_trunc (Max (set (col adr
        \<lparr>rows = [sample_row ''City Hotel'' 2021 ''January'' 50 0,
                 sample_row ''City Hotel'' 2021 ''April'' (201 / 2) 0], added = []\<rparr>)))
   \<and> default_spec \<lparr>rows = [sample_row ''City Hotel'' 2021 ''January'' 50 0,
                 sample_row ''City Hotel'' 2021 ''April'' (201 / 2) 0], added = []\<rparr>
      = Inr \<lparr>hotel_types = [''City Hotel''], years = [2021], months = [''January'', ''April''],
             customer_types = [''Transient''], adr_range = (50, 100)\<rparr>
   \<and> sample_row ''City Hotel'' 2021 ''April'' (201 / 2) 0
      \<notin> set (rows (filtered_df
            \<lparr>rows = [sample_row ''City Hotel'' 2021 ''January'' 50 0,
                     sample_row ''City Hotel'' 2021 ''April'' (201 / 2) 0], added = []\<rparr>
            \<lparr>hotel_types = [''City Hotel''], years = [2021], months = [''April''],
             customer_types = [''Transient''], adr_range = (50, 100)\<rparr>))"
proof -
  let ?d = "\<lparr>rows = [sample_row ''City Hotel'' 2021 ''January'' 50 0,
                 sample_row ''City Hotel'' 2021 ''April'' (201 / 2) 0], added = []\<rparr>"
  let ?s = "\<lparr>hotel_types = [''City Hotel''], years = [2021], months = [''January'', ''April''],
             customer_types = [''Transient''], adr_range = (50, 100)\<rparr>"
  let ?sel = "\<lparr>hotel_types = [''City Hotel''], years = [2021], months = [''April''],
             customer_types = [''Transient''], adr_range = (50, 100)\<rparr>"
  have ne: "rows ?d \<noteq> []" by simp
  have fl: "\<lfloor>201 / 2 :: rat\<rfloor> = 100" by (simp add: floor_eq_iff)
  have lt: "py_trunc (Min (set (col adr ?d))) < py_trunc (Max (set (col adr ?d)))"
    by (simp add: col_def sample_row_def py_trunc_def fl)
  have ds: "default_spec ?d = Inr ?s"
    by (simp add: default_spec_def slider_def col_def sample_row_def py_trunc_def fl)
  from default_range_excludes_above_truncated_max [OF ne lt]
  obtain spec where a: "default_spec ?d = Inr spec"
    and b: "\<forall>sel. adr_range sel = adr_range spec \<longrightarrow>
             (\<forall>r \<in> set (rows ?d). of_int (snd (adr_range spec)) < adr r
                  \<longrightarrow> r \<notin> set (rows (filtered_df ?d sel)))"
    by blast
  from a ds have sp: "spec = ?s" by simp
  have "adr_range ?sel = adr_range ?s" by simp
  moreover have "rat_of_int (snd (adr_range ?s))
          < adr (sample_row ''City Hotel'' 2021 ''April'' (201 / 2) 0)"
    by (simp add: sample_row_def)
  ultimately have "sample_row ''City Hotel'' 2021 ''April'' (201 / 2) 0
      \<notin> set (rows (filtered_df ?d ?sel))"
    using b sp by simp
  with ne lt ds show ?thesis by simp
qed

end
